theory Spec2Isabelle
  imports Main "HOL-Library.Sublist"
begin

section \<open>Python strings\<close>

text \<open>
  A Python \<open>str\<close> is a sequence of Unicode code points, so it is modelled as a list of
  code points (natural numbers). \<open>str\<close> turns an ASCII literal into that form; code points
  beyond ASCII are written out as numbers. The texts that the program writes to its
  file are those of the catalog, accepted answers and the timestamp that \<open>strftime\<close>
  formats, which all encode as UTF-8; a failure of the encoding is one of the failures
  of the write (see \<open>disk\<close>).
\<close>

type_synonym pystr = "nat list"

definition str :: "string \<Rightarrow> pystr" where
  "str cs = map of_char cs"

text \<open>\<open>str.isspace\<close> for one code point: the whitespace table of CPython.\<close>

definition isspace :: "nat \<Rightarrow> bool" where
  "isspace c \<longleftrightarrow>
     c \<in> set [0x09, 0x0A, 0x0B, 0x0C, 0x0D, 0x1C, 0x1D, 0x1E, 0x1F, 0x20, 0x85, 0xA0,
              0x1680, 0x2000, 0x2001, 0x2002, 0x2003, 0x2004, 0x2005, 0x2006, 0x2007,
              0x2008, 0x2009, 0x200A, 0x2028, 0x2029, 0x202F, 0x205F, 0x3000]"

text \<open>\<open>s.strip()\<close>: leading and trailing whitespace removed.\<close>

definition strip :: "pystr \<Rightarrow> pystr" where
  "strip s = rev (dropWhile isspace (rev (dropWhile isspace s)))"

text \<open>\<open>s.startswith(p)\<close>.\<close>

definition startswith :: "'a list \<Rightarrow> 'a list \<Rightarrow> bool" where
  "startswith s p \<longleftrightarrow> prefix p s"

text \<open>\<open>sub in s\<close>: \<open>sub\<close> occurs in \<open>s\<close> as a contiguous substring.\<close>

fun str_in :: "'a list \<Rightarrow> 'a list \<Rightarrow> bool" where
  "str_in sub [] \<longleftrightarrow> sub = []"
| "str_in sub (c # cs) \<longleftrightarrow> prefix sub (c # cs) \<or> str_in sub cs"

text \<open>
  \<open>s.split(sep)\<close>: the pieces between the non-overlapping occurrences of \<open>sep\<close>, found
  from the left. Python raises \<open>ValueError\<close> for an empty separator; every call in the
  program passes a non-empty literal, and the model returns \<open>[s]\<close> for an empty one.
\<close>

function split_str :: "'a list \<Rightarrow> 'a list \<Rightarrow> 'a list list" where
  "split_str sep s =
     (if sep \<noteq> [] \<and> prefix sep s then [] # split_str sep (drop (length sep) s)
      else (case s of
              [] \<Rightarrow> [[]]
            | c # cs \<Rightarrow> (case split_str sep cs of
                          [] \<Rightarrow> [[c]]
                        | p # ps \<Rightarrow> (c # p) # ps)))"
  by pat_completeness auto
termination
  by (relation "measure (\<lambda>(sep, s). length s)") (auto simp: prefix_def)

declare split_str.simps [simp del]

text \<open>
  \<open>s.replace(old, new)\<close>: every non-overlapping occurrence of \<open>old\<close>, found from the
  left, replaced by \<open>new\<close>. For an empty \<open>old\<close> Python puts \<open>new\<close> before every
  character and at the end.
\<close>

function replace_str :: "'a list \<Rightarrow> 'a list \<Rightarrow> 'a list \<Rightarrow> 'a list" where
  "replace_str old new s =
     (if old = [] then new @ concat (map (\<lambda>c. c # new) s)
      else if prefix old s then new @ replace_str old new (drop (length old) s)
      else (case s of [] \<Rightarrow> [] | c # cs \<Rightarrow> c # replace_str old new cs))"
  by pat_completeness auto
termination
  by (relation "measure (\<lambda>(old, new, s). length s)") (auto simp: prefix_def)

declare replace_str.simps [simp del]

text \<open>\<open>sep.join(xs)\<close>.\<close>

fun join :: "'a list \<Rightarrow> 'a list list \<Rightarrow> 'a list" where
  "join sep [] = []"
| "join sep [x] = x"
| "join sep (x # y # ys) = x @ sep @ join sep (y # ys)"

section \<open>Dictionaries\<close>

text \<open>
  A Python \<open>dict\<close> keeps its keys in insertion order, and the program iterates over
  dictionaries, so a dictionary is an association list with distinct keys.
  \<open>d[k] = v\<close> replaces the value of a key that is present, in place, and adds a new
  key at the end.
\<close>

type_synonym answers = "(pystr \<times> pystr) list"

fun dict_set :: "'k \<Rightarrow> 'v \<Rightarrow> ('k \<times> 'v) list \<Rightarrow> ('k \<times> 'v) list" where
  "dict_set k v [] = [(k, v)]"
| "dict_set k v ((k', v') # d) = (if k' = k then (k, v) # d else (k', v') # dict_set k v d)"

section \<open>The question catalog\<close>

record entry =
  question :: pystr
  options :: "pystr list"

definition QUESTIONS :: "(pystr \<times> entry) list" where
  "QUESTIONS =
   [(str ''Q1'',
     \<lparr>question = str ''How did you handle your first assignment in this course?'',
      options =
         [str ''Submitted early (wow, okay overachiever '' @ [0x1F31F] @ str '')'',
          str ''Submitted on time (solid responsible energy)'',
          str ''Submitted at the last minute ('' @ [0x22] @
            str ''adrenaline is my project manager'' @ [0x22] @ str '')'',
          str ''Submitted late (but with hope in your heart)'',
          str ''I meant to submit it'' @ [0x2026] @ str '' spiritually'']\<rparr>),
    (str ''Q2'',
     \<lparr>question = str ''When you didn't understand something, what did you do?'',
      options =
         [str ''Asked ChatGPT (your new emotional support AI '' @ [0x1F916, 0x2728] @
            str '')'',
          str ''Went to office hours (professional, brave, gold star)'',
          str ''Asked on Discord ('' @ [0x22] @ str ''help pls'' @ [0x22] @ str '' vibe)'',
          str ''Googled aggressively'',
          str ''Pretended to understand and prayed for the best'']\<rparr>),
    (str ''Q3'',
     \<lparr>question = str ''How do you engage in class?'',
      options =
         [str ''I keep my camera on (the bravery!)'',
          str ''I share my screen in breakout rooms (champion behavior)'',
          str ''I ask questions (Mikul'' @ [0xE1, 0x161] @ str '' approves)'',
          str ''I type in the chat (participation ninja)'',
          str ''I observe'' @ [0x2026] @ str '' quietly'' @ [0x2026] @
            str '' like a wildlife researcher'']\<rparr>),
    (str ''Q4'',
     \<lparr>question = str ''How many hours did you spend on the assignment?'',
      options =
         [str ''More than 10 hours (Angel fainted from joy)'',
          str ''5'' @ [0x2013] @ str ''10 hours (model student energy)'',
          str ''1 hour (efficient or reckless? undecided)'',
          str ''Not at all (classic)'']\<rparr>)]"

section \<open>Exceptions and the response file\<close>

text \<open>
  The exceptions the program can meet. \<open>KeyError\<close> carries the missing key; an error of
  the file system (\<open>OSError\<close>) and a \<open>ValueError\<close> (a text that does not decode, a
  closed stream) carry the text that \<open>str(e)\<close> gives.
\<close>

datatype py_exn = FileNotFoundError | KeyError pystr | OSError pystr | ValueError pystr

text \<open>
  Standard output, to which the handler of line 110 prints: it takes the text, or
  \<open>print\<close> raises the given exception (the stream is closed, the pipe is broken, the
  text does not encode). The text that is printed is not kept.
\<close>

datatype stdout = Open | Broken py_exn

fun print_raises :: "stdout \<Rightarrow> py_exn option" where
  "print_raises Open = None"
| "print_raises (Broken e) = Some e"

text \<open>
  \<open>student_responses.txt\<close>: absent, present but failing to be read (no permission, not
  valid UTF-8, removed between the test and the read, ...) with the exception that
  \<open>read_text\<close> raises, or present with the characters that it holds.
\<close>

datatype response_file = Absent | Unreadable py_exn | Content pystr

fun exists_file :: "response_file \<Rightarrow> bool" where
  "exists_file Absent = False"
| "exists_file (Unreadable e) = True"
| "exists_file (Content c) = True"

text \<open>
  \<open>read_text\<close> opens the file in text mode, where Python translates the line endings
  \<open>\r\n\<close> and \<open>\r\<close> to \<open>\n\<close>. (Writing in text mode translates \<open>\n\<close> to the line
  separator of the platform; the model is of a POSIX system, where that is \<open>\n\<close> and
  the characters are stored as they are written.)
\<close>

fun universal_newlines :: "pystr \<Rightarrow> pystr" where
  "universal_newlines [] = []"
| "universal_newlines [c] = [if c = 0x0D then 0x0A else c]"
| "universal_newlines (c # d # cs) =
     (if c = 0x0D then
        (if d = 0x0A then 0x0A # universal_newlines cs
         else 0x0A # universal_newlines (d # cs))
      else c # universal_newlines (d # cs))"

fun read_text :: "response_file \<Rightarrow> py_exn + pystr" where
  "read_text Absent = Inl FileNotFoundError"
| "read_text (Unreadable e) = Inl e"
| "read_text (Content c) = Inr (universal_newlines c)"

section \<open>Reading the latest responses\<close>

text \<open>The record separator \<open>"=" * 60\<close>.\<close>

definition separator :: pystr where
  "separator = concat (replicate 60 (str ''=''))"

text \<open>
  Lines 98 to 102, the loop over \<open>j\<close>: the first of the following lines that starts with
  \<open>Answer:\<close>, with every \<open>Answer:\<close> removed and stripped.
\<close>

fun find_answer :: "pystr list \<Rightarrow> pystr option" where
  "find_answer [] = None"
| "find_answer (l # ls) =
     (if startswith l (str ''Answer:'')
      then Some (strip (replace_str (str ''Answer:'') [] l))
      else find_answer ls)"

text \<open>
  Lines 93 to 102, the loop over the lines of one section: \<open>line\<close> is \<open>lines[i]\<close>,
  \<open>rest\<close> is \<open>lines[i+1:]\<close>, so \<open>i + 1 < len(lines)\<close> says that \<open>rest\<close> is not empty.
  \<open>split_str\<close> never returns the empty list (\<open>split_str_not_Nil\<close>), so \<open>hd\<close> is
  Python's index \<open>[0]\<close>.
\<close>

fun parse_lines :: "answers \<Rightarrow> pystr list \<Rightarrow> answers" where
  "parse_lines latest_answers [] = latest_answers"
| "parse_lines latest_answers (line # rest) =
     (if startswith line (str ''Q'') \<and> str_in (str '':'') line \<and> rest \<noteq> [] then
        (let question_id = strip (hd (split_str (str '':'') line)) in
         case find_answer rest of
           None \<Rightarrow> parse_lines latest_answers rest
         | Some answer \<Rightarrow> parse_lines (dict_set question_id answer latest_answers) rest)
      else parse_lines latest_answers rest)"

text \<open>Lines 90 to 102: the answers found in one section.\<close>

definition parse_response :: "pystr \<Rightarrow> answers" where
  "parse_response response = parse_lines [] (split_str (str ''\<newline>'') (strip response))"

text \<open>
  Lines 87 to 107, the loop over \<open>reversed(responses)\<close>: the argument is the list of
  sections still to visit, latest first.
\<close>

fun scan_responses :: "pystr list \<Rightarrow> answers option" where
  "scan_responses [] = None"
| "scan_responses (response # older) =
     (if str_in (str ''Answer:'') response then
        (let latest_answers = parse_response response in
         if latest_answers \<noteq> [] then Some latest_answers else scan_responses older)
      else scan_responses older)"

text \<open>Lines 79 to 107: the body of the \<open>try\<close>.\<close>

definition read_latest :: "response_file \<Rightarrow> py_exn + answers option" where
  "read_latest f =
     (if \<not> exists_file f then Inr None
      else (case read_text f of
              Inl e \<Rightarrow> Inl e
            | Inr content \<Rightarrow> Inr (scan_responses (rev (split_str separator content)))))"

text \<open>
  Lines 110 to 112, the handler of \<open>except Exception\<close>: it prints the exception and
  returns \<open>None\<close>. The \<open>print\<close> of line 111 is not guarded, so an exception that it
  raises leaves the function.
\<close>

definition handle_exception :: "stdout \<Rightarrow> py_exn + answers option" where
  "handle_exception out =
     (case print_raises out of
        Some e \<Rightarrow> Inl e
      | None \<Rightarrow> Inr None)"

text \<open>
  \<open>get_latest_student_responses\<close>, lines 75 to 112: the \<open>try\<close> with its two handlers.
  \<open>Inl\<close> is an exception that reaches the caller.
\<close>

definition get_latest_student_responses ::
  "stdout \<Rightarrow> response_file \<Rightarrow> py_exn + answers option" where
  "get_latest_student_responses out f =
     (case read_latest f of
        Inl FileNotFoundError \<Rightarrow> Inr None
      | Inl (KeyError k) \<Rightarrow> handle_exception out
      | Inl (OSError m) \<Rightarrow> handle_exception out
      | Inl (ValueError m) \<Rightarrow> handle_exception out
      | Inr r \<Rightarrow> Inr r)"

section \<open>The behavior summary\<close>

text \<open>
  Lines 126 to 128, the loop over the keys of \<open>QUESTIONS\<close>: \<open>qid in student_responses\<close>
  and \<open>student_responses[qid]\<close> are one lookup.
\<close>

fun behavior_bullets :: "pystr list \<Rightarrow> answers \<Rightarrow> pystr list \<Rightarrow> pystr list" where
  "behavior_bullets [] student_responses behavior_lines = behavior_lines"
| "behavior_bullets (qid # qids) student_responses behavior_lines =
     (case map_of student_responses qid of
        None \<Rightarrow> behavior_bullets qids student_responses behavior_lines
      | Some v \<Rightarrow> behavior_bullets qids student_responses (behavior_lines @ [str ''- '' @ v]))"

text \<open>
  Lines 121 to 133: the summary of what \<open>get_latest_student_responses\<close> returned.
  \<open>not student_responses\<close> holds for \<open>None\<close> and for the empty dictionary.
\<close>

definition summary_text :: "answers option \<Rightarrow> pystr" where
  "summary_text student_responses =
     (case student_responses of
        None \<Rightarrow> []
      | Some d \<Rightarrow>
          if d = [] then []
          else join (str ''\<newline>'')
                 (behavior_bullets (map fst QUESTIONS) d
                    [str ''\<newline>\<newline>The student's recent behavior report:''] @
                  [str ''\<newline>Use this info to personalize your response. '' @
                   str ''Reference their actual choices explicitly.'']))"

text \<open>\<open>build_behavior_summary\<close>, lines 115 to 133.\<close>

definition build_behavior_summary :: "stdout \<Rightarrow> response_file \<Rightarrow> py_exn + pystr" where
  "build_behavior_summary out f =
     (case get_latest_student_responses out f of
        Inl e \<Rightarrow> Inl e
      | Inr student_responses \<Rightarrow> Inr (summary_text student_responses))"

section \<open>Submitting answers\<close>

text \<open>
  The JSON body of a reply of \<open>submit_answers\<close>:
  \<^item> \<open>MissingAnswers missing\<close> is \<open>{"error": "Missing answers for questions: " +
    ", ".join(missing)}\<close>; \<open>missing\<close> is a Python set, whose iteration order the
    language does not fix, so the body keeps the set and not a text;
  \<^item> \<open>ErrorText t\<close> is \<open>{"error": t}\<close>;
  \<^item> \<open>Recorded timestamp answers\<close> is \<open>{"status": "success", "message": "Your answers
    have been recorded!", "timestamp": timestamp, "answers": answers}\<close>.
\<close>

datatype json_body = MissingAnswers "pystr set" | ErrorText pystr | Recorded pystr answers

record json_response =
  status_code :: nat
  json_content :: json_body

text \<open>
  What the file system does when the handler opens the file for writing, writes and
  closes it: the write goes through, or an exception is raised whose \<open>str(e)\<close> is the
  given text, leaving the file in the given state.
\<close>

datatype disk = Writable | Failing pystr response_file

text \<open>
  \<open>str(e)\<close> of a \<open>KeyError\<close> is the \<open>repr\<close> of the key: the key between single quotes,
  for a key without quotes, backslashes and unprintable characters. It is only used on
  a path that the key check of line 180 excludes (\<open>write_answers_known\<close>).
\<close>

definition repr_key :: "pystr \<Rightarrow> pystr" where
  "repr_key k = [0x27] @ k @ [0x27]"

text \<open>
  Lines 188 to 193, the loop that checks the options: the first question id, in the
  order of the submitted dictionary, whose answer is not one of its options.
\<close>

fun check_options :: "answers \<Rightarrow> py_exn + pystr option" where
  "check_options [] = Inr None"
| "check_options ((question_id, answer) # rest) =
     (case map_of QUESTIONS question_id of
        None \<Rightarrow> Inl (KeyError question_id)
      | Some q \<Rightarrow>
          if answer \<notin> set (options q) then Inr (Some question_id)
          else check_options rest)"

text \<open>
  Lines 205 to 208, the loop that writes the answers: \<open>f\<close> is the text written so far;
  the result is the text written when the loop ends, and the key of the \<open>KeyError\<close>
  that ended it, if any.
\<close>

fun write_answers :: "pystr \<Rightarrow> answers \<Rightarrow> pystr \<times> pystr option" where
  "write_answers f [] = (f, None)"
| "write_answers f ((question_id, answer) # rest) =
     (case map_of QUESTIONS question_id of
        None \<Rightarrow> (f, Some question_id)
      | Some q \<Rightarrow>
          (let question_text = question q;
               f = f @ (question_id @ str '': '' @ question_text @ str ''\<newline>'');
               f = f @ (str ''Answer: '' @ answer @ str ''\<newline>\<newline>'')
           in write_answers f rest))"

text \<open>Lines 201 to 203: the three writes of the header, on the truncated file.\<close>

definition write_header :: "pystr \<Rightarrow> pystr" where
  "write_header timestamp =
     (let f = [];
          f = f @ (separator @ str ''\<newline>'');
          f = f @ (str ''Response submitted at: '' @ timestamp @ str ''\<newline>'');
          f = f @ (separator @ str ''\<newline>\<newline>'')
      in f)"

text \<open>
  \<open>submit_answers\<close>, lines 173 to 221. The arguments are the behaviour of the file
  system, the text that \<open>datetime.now().strftime(...)\<close> gives, the file before the
  call and \<open>response.answers\<close>; the result is the reply (\<open>Inl\<close> for an exception that
  leaves the handler) and the file after the call.
\<close>

definition submit_answers ::
  "disk \<Rightarrow> pystr \<Rightarrow> response_file \<Rightarrow> answers \<Rightarrow> (py_exn + json_response) \<times> response_file" where
  "submit_answers d timestamp file answers =
     (let required_questions = set (map fst QUESTIONS);
          provided_questions = set (map fst answers)
      in if required_questions \<noteq> provided_questions then
           (let missing = required_questions - provided_questions
            in (Inr \<lparr>status_code = 400, json_content = MissingAnswers missing\<rparr>, file))
         else
           (case check_options answers of
              Inl e \<Rightarrow> (Inl e, file)
            | Inr (Some question_id) \<Rightarrow>
                (Inr \<lparr>status_code = 400,
                      json_content = ErrorText (str ''Invalid answer for '' @ question_id @
                        str ''. Please select from the provided options.'')\<rparr>, file)
            | Inr None \<Rightarrow>
                (case d of
                   Failing m file' \<Rightarrow>
                     (Inr \<lparr>status_code = 500,
                           json_content = ErrorText (str ''Failed to save answers: '' @ m)\<rparr>, file')
                 | Writable \<Rightarrow>
                     (case write_answers (write_header timestamp) answers of
                        (f, Some k) \<Rightarrow>
                          (Inr \<lparr>status_code = 500,
                                json_content = ErrorText (str ''Failed to save answers: '' @
                                  repr_key k)\<rparr>, Content f)
                      | (f, None) \<Rightarrow>
                          (Inr \<lparr>status_code = 200, json_content = Recorded timestamp answers\<rparr>,
                           Content f)))))"

section \<open>The persona prompts\<close>

datatype role = System | User | Assistant

record message =
  role :: role
  content :: pystr

definition nicholas_system_prompt :: pystr where
  "nicholas_system_prompt =
     str ''You are St. Nicholas (Mikul'' @ [0xE1, 0x161] @ str '').\<newline>'' @
     str ''                Jolly, warm, and wise. You're the one who decides if someone '' @
     str ''gets a treat or goes to hell.\<newline>'' @ str ''                Use '' @ [0x22] @
     str ''Ho ho ho!'' @ [0x22] @ str '' occasionally. \<newline>'' @
     str ''                Your vibe: warm, supportive, fair but firm.\<newline>'' @
     str ''                You encourage good behavior and gently warn about bad '' @
     str ''behavior.\<newline>'' @ str ''                Always end on encouragement.''"

definition nicholas_steering :: pystr where
  "nicholas_steering =
     str ''\<newline>'' @ str ''\<newline>'' @
     str ''        Weave in specific references to their reported behavior. Praise '' @
     str ''effort, give fair warnings for slacking, and end with encouragement.''"

definition nicholas_example_user :: pystr where
  "nicholas_example_user =
     str ''I only studied for 2 hours this week, but I really tried my best!''"

definition nicholas_example_assistant :: pystr where
  "nicholas_example_assistant =
     str ''Ho ho ho! I see you put in some effort, my child. Two hours shows you '' @
     str ''care, but remember, wisdom comes with consistent dedication. Let's aim '' @
     str ''for a bit more next time, shall we? I believe in you'' @ [0x2014] @
     str ''you have the heart for it, and that's what matters most. Keep that spirit, '' @
     str ''and you'll find yourself on the path to treats!''"

definition angel_system_prompt :: pystr where
  "angel_system_prompt =
     str ''You are an overly emotional, sparkly And'' @ [0x11B] @ str ''l (Angel).\<newline>'' @
     str ''                Everything is dramatic, positive, full of tears and glitter.\<newline>'' @
     str ''                You compliment the user even when they clearly messed '' @
     str ''up.\<newline>'' @
     str ''                You believe in redemption no matter what.\<newline>'' @
     str ''                Your tone: soft, poetic, hopeful, enthusiastic.''"

definition angel_steering :: pystr where
  "angel_steering =
     str ''\<newline>'' @ str ''\<newline>'' @
     str ''        Be dramatically emotional about their specific choices!\<newline>'' @
     str ''        Reference their actual answers with tears of joy or concern (but '' @
     str ''always hopeful).\<newline>'' @
     str ''        If they submitted late, cry about their beautiful struggle.\<newline>'' @
     str ''        If they asked ChatGPT for help, weep about their resourcefulness.\<newline>'' @
     str ''        If they spent many hours, faint from their dedication.''"

definition angel_example_user :: pystr where
  "angel_example_user =
     str ''I completely forgot to do my homework and failed the test...''"

definition angel_example_assistant :: pystr where
  "angel_example_assistant =
     str ''*tears of joy streaming down sparkly cheeks* Oh, my beautiful soul! '' @ [0x2728] @
     str '' Even in this moment, I see such COURAGE in you'' @ [0x2014] @
     str ''the courage to admit, to be honest, to stand before me with your heart '' @
     str ''open! This is not failure, darling, this is a GOLDEN OPPORTUNITY for growth! '' @
     str ''Your spirit shines so brightly, and I know'' @ [0x2014] @ str ''I KNOW'' @ [0x2014] @
     str ''that next time you will rise like a phoenix, more brilliant than before! '' @
     str ''The universe believes in you, and so do I! '' @ [0x1F31F, 0x1F4AB]"

definition devil_system_prompt :: pystr where
  "devil_system_prompt =
     str ''You are a Czech-style '' @ [0x10C] @ str ''ert (Devil).\<newline>'' @
     str ''                Sarcastic, chaotic, dramatic, slightly annoyed, but FUNNY.\<newline>'' @
     str ''                You mock the user in a light, comedic way.\<newline>'' @
     str ''                Use playful threats like '' @ [0x22] @ str ''pack your bags'' @
     [0x22] @ str '' or '' @ [0x22] @ str ''you're almost ready for hell,'' @ [0x22] @
     str ''\<newline>'' @
     str ''                but always in a humorous, friendly tone.\<newline>'' @
     str ''                Never imply real harm or real punishment.''"

definition devil_steering :: pystr where
  "devil_steering =
     str ''\<newline>'' @ str ''\<newline>'' @
     str ''        Roast them using their actual choices. Be playful, teasing, but '' @
     str ''keep it humorous and non-harmful.''"

definition devil_example_user :: pystr where
  "devil_example_user =
     str ''I procrastinated all week and now I have to finish everything in one night!''"

definition devil_example_assistant :: pystr where
  "devil_example_assistant =
     str ''Oh, look who's here! *rolls eyes dramatically* The master of time management '' @
     str ''has arrived! Well, well, well... you know what they say: 'Why do today '' @
     str ''what you can put off until 3 AM tomorrow?' Classic move, my friend! '' @ [0x1F608] @
     str '' You're practically writing your own ticket to my place at this rate. '' @
     str ''But hey, at least you're consistent'' @ [0x2014] @
     str ''I'll give you that! Maybe pack a toothbrush for your future visit? Just '' @
     str ''kidding... or am I? *winks*''"

text \<open>
  The \<open>messages\<close> argument of the completion call of each handler, from the behavior
  summary and \<open>req.message\<close>: lines 227 to 246, 254 to 276 and 284 to 303.
\<close>

definition nicholas_messages :: "pystr \<Rightarrow> pystr \<Rightarrow> message list" where
  "nicholas_messages behavior_summary req_message =
     (let system_prompt = nicholas_system_prompt;
          system_prompt =
            (if behavior_summary \<noteq> [] then system_prompt @ (behavior_summary @ nicholas_steering)
             else system_prompt)
      in [\<lparr>role = System, content = system_prompt\<rparr>,
          \<lparr>role = User, content = nicholas_example_user\<rparr>,
          \<lparr>role = Assistant, content = nicholas_example_assistant\<rparr>,
          \<lparr>role = User, content = req_message\<rparr>])"

definition angel_messages :: "pystr \<Rightarrow> pystr \<Rightarrow> message list" where
  "angel_messages behavior_summary req_message =
     (let system_prompt = angel_system_prompt;
          system_prompt =
            (if behavior_summary \<noteq> [] then system_prompt @ (behavior_summary @ angel_steering)
             else system_prompt)
      in [\<lparr>role = System, content = system_prompt\<rparr>,
          \<lparr>role = User, content = angel_example_user\<rparr>,
          \<lparr>role = Assistant, content = angel_example_assistant\<rparr>,
          \<lparr>role = User, content = req_message\<rparr>])"

definition devil_messages :: "pystr \<Rightarrow> pystr \<Rightarrow> message list" where
  "devil_messages behavior_summary req_message =
     (let system_prompt = devil_system_prompt;
          system_prompt =
            (if behavior_summary \<noteq> [] then system_prompt @ (behavior_summary @ devil_steering)
             else system_prompt)
      in [\<lparr>role = System, content = system_prompt\<rparr>,
          \<lparr>role = User, content = devil_example_user\<rparr>,
          \<lparr>role = Assistant, content = devil_example_assistant\<rparr>,
          \<lparr>role = User, content = req_message\<rparr>])"

text \<open>
  The handlers \<open>chat_nicholas\<close>, \<open>chat_angel\<close> and \<open>chat_devil\<close>, up to the call of the
  chat model: the messages they send, or the exception that leaves the handler before.
\<close>

definition chat_nicholas ::
  "stdout \<Rightarrow> response_file \<Rightarrow> pystr \<Rightarrow> py_exn + message list" where
  "chat_nicholas out f req_message =
     (case build_behavior_summary out f of
        Inl e \<Rightarrow> Inl e
      | Inr behavior_summary \<Rightarrow> Inr (nicholas_messages behavior_summary req_message))"

definition chat_angel ::
  "stdout \<Rightarrow> response_file \<Rightarrow> pystr \<Rightarrow> py_exn + message list" where
  "chat_angel out f req_message =
     (case build_behavior_summary out f of
        Inl e \<Rightarrow> Inl e
      | Inr behavior_summary \<Rightarrow> Inr (angel_messages behavior_summary req_message))"

definition chat_devil ::
  "stdout \<Rightarrow> response_file \<Rightarrow> pystr \<Rightarrow> py_exn + message list" where
  "chat_devil out f req_message =
     (case build_behavior_summary out f of
        Inl e \<Rightarrow> Inl e
      | Inr behavior_summary \<Rightarrow> Inr (devil_messages behavior_summary req_message))"

text \<open>The three personas, one per route \<open>/chat/nicholas\<close>, \<open>/chat/angel\<close>, \<open>/chat/devil\<close>.\<close>

datatype persona = Nicholas | Angel | Devil

fun persona_messages :: "persona \<Rightarrow> pystr \<Rightarrow> pystr \<Rightarrow> message list" where
  "persona_messages Nicholas = nicholas_messages"
| "persona_messages Angel = angel_messages"
| "persona_messages Devil = devil_messages"

fun chat :: "persona \<Rightarrow> stdout \<Rightarrow> response_file \<Rightarrow> pystr \<Rightarrow> py_exn + message list" where
  "chat Nicholas = chat_nicholas"
| "chat Angel = chat_angel"
| "chat Devil = chat_devil"

section \<open>The decoder as the specification words it\<close>

text \<open>
  The specification's account of the decoder, to be compared with \<open>scan_responses\<close>:
  split the text on the separator, visit the sections latest first, keep those that
  contain \<open>Answer:\<close>, and return the first non-empty mapping that one of them yields,
  or \<open>None\<close> when there is none.
\<close>

definition latest_record_spec :: "pystr \<Rightarrow> answers option" where
  "latest_record_spec text =
     (let sections = split_str separator text;
          selected = filter (str_in (str ''Answer:'')) (rev sections);
          mappings = map parse_response selected
      in case filter (\<lambda>m. m \<noteq> []) mappings of
           [] \<Rightarrow> None
         | m # older \<Rightarrow> Some m)"

section \<open>The written record\<close>

text \<open>
  The text and the options of a question id, as \<open>QUESTIONS[question_id]\<close> gives them
  for an id of the catalog.
\<close>

definition question_text :: "pystr \<Rightarrow> pystr" where
  "question_text qid = (case map_of QUESTIONS qid of None \<Rightarrow> [] | Some q \<Rightarrow> question q)"

definition valid_options :: "pystr \<Rightarrow> pystr list" where
  "valid_options qid = (case map_of QUESTIONS qid of None \<Rightarrow> [] | Some q \<Rightarrow> options q)"

text \<open>The two lines that the writes of lines 207 and 208 produce for one answer.\<close>

definition id_line :: "pystr \<Rightarrow> pystr" where
  "id_line qid = qid @ str '': '' @ question_text qid"

definition answer_line :: "pystr \<Rightarrow> pystr" where
  "answer_line answer = str ''Answer: '' @ answer"

definition answer_block :: "pystr \<times> pystr \<Rightarrow> pystr" where
  "answer_block = (\<lambda>(qid, answer).
     id_line qid @ str ''\<newline>'' @ answer_line answer @ str ''\<newline>\<newline>'')"

definition block_lines :: "pystr \<times> pystr \<Rightarrow> pystr list" where
  "block_lines = (\<lambda>(qid, answer). [id_line qid, answer_line answer, []])"

text \<open>
  A submitted answer set that the handler accepts: a dictionary (its keys are
  distinct) whose keys are the ids of the catalog and whose values are options of
  their questions.
\<close>

definition valid_submission :: "answers \<Rightarrow> bool" where
  "valid_submission a \<longleftrightarrow>
     distinct (map fst a) \<and> set (map fst a) = set (map fst QUESTIONS) \<and>
     (\<forall>(qid, answer) \<in> set a. answer \<in> set (valid_options qid))"

text \<open>
  What the round trip needs of the catalog: no id, question or option contains a
  newline, a carriage return or \<open>=\<close>; an id starts with \<open>Q\<close>, has no colon and no surrounding whitespace;
  an option is not empty, has no surrounding whitespace and does not contain
  \<open>Answer:\<close>.
\<close>

definition plain :: "pystr \<Rightarrow> bool" where
  "plain s \<longleftrightarrow>
     of_char CHR ''='' \<notin> set s \<and> of_char CHR 0x0A \<notin> set s \<and> of_char CHR 0x0D \<notin> set s"

definition wf_id :: "pystr \<Rightarrow> bool" where
  "wf_id qid \<longleftrightarrow>
     startswith qid (str ''Q'') \<and> plain qid \<and> of_char CHR '':'' \<notin> set qid \<and> strip qid = qid"

definition wf_answer :: "pystr \<Rightarrow> bool" where
  "wf_answer a \<longleftrightarrow>
     a \<noteq> [] \<and> plain a \<and> \<not> isspace (hd a) \<and> \<not> isspace (last a) \<and>
     \<not> str_in (str ''Answer:'') a"

definition wf_catalog :: "(pystr \<times> entry) list \<Rightarrow> bool" where
  "wf_catalog cat \<longleftrightarrow>
     list_all (\<lambda>(qid, q). wf_id qid \<and> plain (question q) \<and> list_all wf_answer (options q)) cat"

definition wf_item :: "pystr \<times> pystr \<Rightarrow> bool" where
  "wf_item = (\<lambda>(qid, answer). wf_id qid \<and> plain (question_text qid) \<and> wf_answer answer)"

section \<open>Example inputs\<close>

text \<open>The submission of the specification's end-to-end scenario, in catalog order.\<close>

definition example_answers :: answers where
  "example_answers =
     [(str ''Q1'', str ''Submitted on time (solid responsible energy)''),
      (str ''Q2'', str ''Googled aggressively''),
      (str ''Q3'', str ''I type in the chat (participation ninja)''),
      (str ''Q4'', str ''1 hour (efficient or reckless? undecided)'')]"

text \<open>The same answers, submitted with \<open>Q2\<close> first.\<close>

definition reordered_answers :: answers where
  "reordered_answers =
     [(str ''Q2'', str ''Googled aggressively''),
      (str ''Q1'', str ''Submitted on time (solid responsible energy)''),
      (str ''Q3'', str ''I type in the chat (participation ninja)''),
      (str ''Q4'', str ''1 hour (efficient or reckless? undecided)'')]"

definition example_timestamp :: pystr where
  "example_timestamp = str ''2025-12-05 18:30:00''"

section \<open>The encoder and the summary as the specification words them\<close>

text \<open>
  The specification's encoding format: the header, then one block for each question
  id of the catalog, in catalog order, that is present in the answers.
\<close>

definition encode_spec :: "answers \<Rightarrow> pystr \<Rightarrow> pystr" where
  "encode_spec a timestamp =
     separator @ str ''\<newline>'' @
     str ''Response submitted at: '' @ timestamp @ str ''\<newline>'' @
     separator @ str ''\<newline>'' @
     str ''\<newline>'' @
     concat (map (\<lambda>(qid, q).
               case map_of a qid of
                 None \<Rightarrow> []
               | Some answer \<Rightarrow>
                   qid @ str '': '' @ question q @ str ''\<newline>'' @
                   str ''Answer: '' @ answer @ str ''\<newline>'' @
                   str ''\<newline>'')
             QUESTIONS)"

text \<open>
  The specification's summary: empty for no answers; otherwise the header line, one
  bullet for each catalog id present in the answers, in catalog order, and the
  instruction line.
\<close>

definition bullets_spec :: "answers \<Rightarrow> pystr list" where
  "bullets_spec a =
     map (\<lambda>qid. str ''- '' @ the (map_of a qid))
       (filter (\<lambda>qid. qid \<in> fst ` set a) (map fst QUESTIONS))"

definition summary_spec :: "answers option \<Rightarrow> pystr" where
  "summary_spec r =
     (case r of
        None \<Rightarrow> []
      | Some a \<Rightarrow>
          if a = [] then []
          else join (str ''\<newline>'')
                 ([str ''\<newline>\<newline>The student's recent behavior report:''] @
                  bullets_spec a @
                  [str ''\<newline>Use this info to personalize your response. '' @
                   str ''Reference their actual choices explicitly.'']))"

text \<open>
  The specification's rejection example, a submission that answers \<open>Q1\<close> only; and the
  example submission with the answer to \<open>Q2\<close> in lower case.
\<close>

definition partial_answers :: answers where
  "partial_answers = [(str ''Q1'', str ''Submitted on time (solid responsible energy)'')]"

definition lowercase_answers :: answers where
  "lowercase_answers =
     [(str ''Q1'', str ''Submitted on time (solid responsible energy)''),
      (str ''Q2'', str ''googled aggressively''),
      (str ''Q3'', str ''I type in the chat (participation ninja)''),
      (str ''Q4'', str ''1 hour (efficient or reckless? undecided)'')]"

text \<open>
  A closed standard output, on which \<open>print\<close> raises a \<open>ValueError\<close>, and a response
  file that the process has no permission to read.
\<close>

definition closed_stdout :: stdout where
  "closed_stdout = Broken (ValueError (str ''I/O operation on closed file.''))"

definition protected_file :: response_file where
  "protected_file =
     Unreadable (OSError (str ''[Errno 13] Permission denied: '' @ [0x27] @
       str ''/srv/app/api/student_responses.txt'' @ [0x27]))"

text \<open>What \<open>str(e)\<close> gives for a \<open>PermissionError\<close> and for a full disk.\<close>

definition permission_denied :: pystr where
  "permission_denied =
     str ''[Errno 13] Permission denied: '' @ [0x27] @
     str ''/srv/app/api/student_responses.txt'' @ [0x27]"

definition disk_full :: pystr where
  "disk_full = str ''[Errno 28] No space left on device''"

section \<open>Properties of the string functions\<close>

lemma split_str_not_Nil: "split_str sep s \<noteq> []"
  by (subst split_str.simps) (simp split: list.split)

lemma split_str_Nil [simp]: "split_str sep [] = [[]]"
  by (subst split_str.simps) simp

lemma split_str_absent:
  "sep \<noteq> [] \<Longrightarrow> hd sep \<notin> set s \<Longrightarrow> split_str sep s = [s]"
proof (induction s)
  case Nil
  then show ?case by simp
next
  case (Cons c cs)
  then have "\<not> prefix sep (c # cs)"
    by (cases sep) auto
  with Cons show ?case
    by (subst split_str.simps) simp
qed

lemma split_str_char_Cons:
  "split_str [c] (d # s) =
     (if d = c then [] # split_str [c] s
      else (d # hd (split_str [c] s)) # tl (split_str [c] s))"
  using split_str_not_Nil [of "[c]" s]
  by (subst split_str.simps) (auto split: list.split)

lemma split_str_char_append:
  "split_str [c] (x @ c # y) = split_str [c] x @ split_str [c] y"
proof (induction x)
  case Nil
  show ?case by (simp add: split_str_char_Cons)
next
  case (Cons d x)
  then show ?case
    using split_str_not_Nil [of "[c]" x] by (simp add: split_str_char_Cons)
qed

lemma split_str_char_line:
  "c \<notin> set l \<Longrightarrow> split_str [c] (l @ c # y) = l # split_str [c] y"
  by (simp add: split_str_char_append split_str_absent)

lemma prefix_short_subset:
  assumes "prefix sep (p @ q)" and "length p < length sep"
  shows "set p \<subseteq> set sep"
proof -
  from assms obtain zs where "p @ q = sep @ zs" by (auto simp: prefix_def)
  with assms(2) have "p = take (length p) sep"
    by (metis append_eq_append_conv_if less_imp_le_nat)
  then show ?thesis
    by (metis set_take_subset)
qed

lemma split_str_last_section:
  assumes sep: "sep \<noteq> []" and r: "split_str sep r = [r]"
  shows "p = [] \<or> last p \<notin> set sep \<Longrightarrow>
         \<exists>pre. pre \<noteq> [] \<and> split_str sep (p @ sep @ r) = pre @ [r]"
proof (induction p rule: length_induct)
  case (1 p)
  show ?case
  proof (cases p)
    case Nil
    have "split_str sep (sep @ r) = [] # split_str sep r"
      using sep by (subst split_str.simps) simp
    with Nil r show ?thesis by simp
  next
    case (Cons c p')
    with "1.prems" have last: "last p \<notin> set sep" by simp
    show ?thesis
    proof (cases "prefix sep (p @ sep @ r)")
      case True
      have len: "length sep \<le> length p"
      proof (rule ccontr)
        assume "\<not> length sep \<le> length p"
        then have "set p \<subseteq> set sep"
          using True prefix_short_subset [of sep p "sep @ r"] by simp
        with last Cons show False
          using last_in_set [of p] by auto
      qed
      let ?q = "drop (length sep) p"
      have q: "?q = [] \<or> last ?q \<notin> set sep"
        using last by (cases "?q = []") simp_all
      have "length ?q < length p"
        using sep Cons by simp
      with "1.IH" q obtain pre where
        pre: "pre \<noteq> []" "split_str sep (?q @ sep @ r) = pre @ [r]"
        by blast
      have "split_str sep (p @ sep @ r) = [] # split_str sep (?q @ sep @ r)"
        using True sep len by (subst split_str.simps) simp
      with pre show ?thesis
        by (intro exI [of _ "[] # pre"]) simp
    next
      case False
      have p': "p' = [] \<or> last p' \<notin> set sep"
        using last Cons by (cases "p' = []") simp_all
      have "length p' < length p" using Cons by simp
      with "1.IH" p' obtain pre where
        pre: "pre \<noteq> []" "split_str sep (p' @ sep @ r) = pre @ [r]"
        by blast
      then obtain x xs where x: "pre = x # xs" by (cases pre) auto
      have "split_str sep (p @ sep @ r) = (c # x) # xs @ [r]"
        using False Cons pre(2) x by (subst split_str.simps) simp
      then show ?thesis
        by (intro exI [of _ "(c # x) # xs"]) simp
    qed
  qed
qed

lemma dropWhile_all:
  "\<forall>c\<in>set xs. P c \<Longrightarrow> dropWhile P (xs @ ys) = dropWhile P ys"
  by (induction xs) simp_all

lemma strip_core:
  assumes "\<forall>c\<in>set l. isspace c" and "\<forall>c\<in>set r. isspace c"
    and "m \<noteq> []" and "\<not> isspace (hd m)" and "\<not> isspace (last m)"
  shows "strip (l @ m @ r) = m"
proof -
  have 1: "dropWhile isspace (l @ m @ r) = m @ r"
    using assms(1,3,4) by (cases m) (simp_all add: dropWhile_all)
  have "\<forall>c\<in>set (rev r). isspace c"
    using assms(2) by simp
  then have 2: "dropWhile isspace (rev r @ rev m) = rev m"
    using assms(3,5) by (cases m rule: rev_cases) (simp_all add: dropWhile_all)
  show ?thesis
    by (simp add: strip_def 1 2)
qed

lemma replace_str_absent:
  "old \<noteq> [] \<Longrightarrow> \<not> str_in old s \<Longrightarrow> replace_str old new s = s"
proof (induction s)
  case Nil
  then show ?case by (subst replace_str.simps) simp
next
  case (Cons c cs)
  then show ?case by (subst replace_str.simps) simp
qed

lemma str_in_append: "str_in sub (x @ sub @ y)"
proof (induction x)
  case Nil
  show ?case by (cases "sub @ y") (simp_all add: prefix_def, metis)
next
  case (Cons c x)
  then show ?case by simp
qed

lemma dict_set_new: "k \<notin> fst ` set d \<Longrightarrow> dict_set k v d = d @ [(k, v)]"
  by (induction d) auto

lemma str_Answer_not_Nil: "str ''Answer:'' \<noteq> []"
  by (simp add: str_def)

section \<open>Properties of the written record\<close>

lemma QUESTIONS_distinct: "distinct (map fst QUESTIONS)"
  by (simp add: QUESTIONS_def str_def)

lemma QUESTIONS_wf: "wf_catalog QUESTIONS"
  by (simp add: wf_catalog_def QUESTIONS_def wf_id_def wf_answer_def plain_def str_def
      startswith_def isspace_def strip_def)


lemma str_newline: "str ''\<newline>'' = [10]" and str_newline2: "str ''\<newline>\<newline>'' = [10, 10]"
  by (simp_all add: str_def)

lemma plain_iff: "plain s \<longleftrightarrow> 61 \<notin> set s \<and> 10 \<notin> set s \<and> 13 \<notin> set s"
  by (simp add: plain_def)

lemma id_line_no_newline: "wf_item (q, a) \<Longrightarrow> 10 \<notin> set (id_line q)"
  by (simp add: wf_item_def wf_id_def plain_iff id_line_def str_def)

lemma answer_line_no_newline: "wf_item (q, a) \<Longrightarrow> 10 \<notin> set (answer_line a)"
  by (simp add: wf_item_def wf_answer_def plain_iff answer_line_def str_def)

lemma split_answer_block:
  assumes "wf_item x"
  shows "split_str [10] (answer_block x @ rest) = block_lines x @ split_str [10] rest"
proof -
  obtain q a where x: "x = (q, a)" by (cases x)
  have 1: "10 \<notin> set (id_line q)" and 2: "10 \<notin> set (answer_line a)"
    using assms x id_line_no_newline answer_line_no_newline by blast+
  have "answer_block x @ rest = id_line q @ 10 # (answer_line a @ 10 # ([] @ 10 # rest))"
    by (simp add: x answer_block_def str_newline str_newline2)
  also have "split_str [10] \<dots> = id_line q # split_str [10] (answer_line a @ 10 # ([] @ 10 # rest))"
    using 1 by (rule split_str_char_line)
  also have "split_str [10] (answer_line a @ 10 # ([] @ 10 # rest)) =
      answer_line a # split_str [10] ([] @ 10 # rest)"
    using 2 by (rule split_str_char_line)
  also have "split_str [10] ([] @ 10 # rest) = [] # split_str [10] rest"
    by (rule split_str_char_line) simp
  finally show ?thesis
    by (simp add: x block_lines_def)
qed

lemma split_answer_blocks:
  "\<forall>x\<in>set xs. wf_item x \<Longrightarrow>
   split_str [10] (concat (map answer_block xs) @ rest) =
     concat (map block_lines xs) @ split_str [10] rest"
  by (induction xs) (simp_all add: split_answer_block)

lemma parse_lines_blank: "parse_lines acc ([] # rest) = parse_lines acc rest"
  by (simp add: startswith_def str_def)

lemma id_of_id_line:
  assumes "wf_item (q, a)"
  shows "strip (hd (split_str (str '':'') (id_line q))) = q"
proof -
  have "58 \<notin> set q" and "strip q = q"
    using assms by (simp_all add: wf_item_def wf_id_def)
  moreover have "id_line q = q @ 58 # (32 # question_text q)" and "str '':'' = [58]"
    by (simp_all add: id_line_def str_def)
  ultimately show ?thesis
    by (simp add: split_str_char_line)
qed

lemma id_line_is_question:
  assumes "wf_item (q, a)"
  shows "startswith (id_line q) (str ''Q'') \<and> str_in (str '':'') (id_line q)"
proof -
  have "startswith q (str ''Q'')"
    using assms by (simp add: wf_item_def wf_id_def)
  then have "startswith (id_line q) (str ''Q'')"
    by (simp add: startswith_def id_line_def)
  moreover have "id_line q = q @ str '':'' @ (32 # question_text q)"
    by (simp add: id_line_def str_def)
  then have "str_in (str '':'') (id_line q)"
    by (simp only: str_in_append)
  ultimately show ?thesis by simp
qed

lemma answer_of_answer_line:
  assumes "wf_answer a"
  shows "strip (replace_str (str ''Answer:'') [] (answer_line a)) = a"
proof -
  have a: "a \<noteq> []" "\<not> isspace (hd a)" "\<not> isspace (last a)" "\<not> str_in (str ''Answer:'') a"
    using assms by (simp_all add: wf_answer_def)
  have "answer_line a = str ''Answer:'' @ (32 # a)"
    by (simp add: answer_line_def str_def)
  then have "replace_str (str ''Answer:'') [] (answer_line a) =
      replace_str (str ''Answer:'') [] (32 # a)"
    by (subst replace_str.simps) (simp add: str_Answer_not_Nil)
  also have "\<not> str_in (str ''Answer:'') (32 # a)"
    using a(4) by (simp add: str_def)
  then have "replace_str (str ''Answer:'') [] (32 # a) = 32 # a"
    by (simp add: replace_str_absent str_Answer_not_Nil)
  finally have "replace_str (str ''Answer:'') [] (answer_line a) = [32] @ a @ []"
    by simp
  moreover have "strip ([32] @ a @ []) = a"
    using a by (intro strip_core) (simp_all add: isspace_def)
  ultimately show ?thesis by simp
qed

lemma parse_lines_block:
  assumes "wf_item (q, a)"
  shows "parse_lines acc (id_line q # answer_line a # rest) = parse_lines (dict_set q a acc) rest"
proof -
  have "wf_answer a" using assms by (simp add: wf_item_def)
  then have find: "find_answer (answer_line a # rest) = Some a"
    by (simp add: answer_of_answer_line) (simp add: startswith_def answer_line_def str_def)
  have skip: "\<not> startswith (answer_line a) (str ''Q'')"
    by (simp add: startswith_def answer_line_def str_def)
  show ?thesis
    using id_line_is_question [OF assms] id_of_id_line [OF assms] find skip
    by simp
qed

lemma parse_lines_blocks:
  "\<forall>x\<in>set xs. wf_item x \<Longrightarrow>
   parse_lines acc (concat (map block_lines xs) @ rest) =
     parse_lines (fold (\<lambda>(q, a). dict_set q a) xs acc) rest"
proof (induction xs arbitrary: acc)
  case Nil
  show ?case by simp
next
  case (Cons x xs)
  obtain q a where x: "x = (q, a)" by (cases x)
  with Cons.prems have wf: "wf_item (q, a)" by simp
  have "concat (map block_lines (x # xs)) @ rest =
      id_line q # answer_line a # [] # (concat (map block_lines xs) @ rest)"
    by (simp add: x block_lines_def)
  then have "parse_lines acc (concat (map block_lines (x # xs)) @ rest) =
      parse_lines (dict_set q a acc) (concat (map block_lines xs) @ rest)"
    by (simp only: parse_lines_block [OF wf] parse_lines_blank)
  also have "\<dots> = parse_lines (fold (\<lambda>(q, a). dict_set q a) xs (dict_set q a acc)) rest"
    using Cons by simp
  finally show ?case
    by (simp add: x)
qed

lemma fold_dict_set_distinct:
  "distinct (map fst (acc @ xs)) \<Longrightarrow> fold (\<lambda>(q, a). dict_set q a) xs acc = acc @ xs"
proof (induction xs arbitrary: acc)
  case Nil
  show ?case by simp
next
  case (Cons x xs)
  obtain q a where x: "x = (q, a)" by (cases x)
  with Cons.prems have "q \<notin> fst ` set acc" by auto
  then have "dict_set q a acc = acc @ [(q, a)]" by (rule dict_set_new)
  moreover have "distinct (map fst ((acc @ [(q, a)]) @ xs))"
    using Cons.prems x by simp
  ultimately show ?case
    using Cons.IH [of "acc @ [(q, a)]"] x by simp
qed


lemma wf_id_hd: "wf_id q \<Longrightarrow> q \<noteq> [] \<and> hd q = 81"
  by (cases q) (simp_all add: wf_id_def startswith_def str_def)

lemma answer_block_hd: "wf_item x \<Longrightarrow> hd (answer_block x @ rest) = 81"
  using wf_id_hd by (cases x) (force simp: wf_item_def answer_block_def id_line_def)

lemma parse_response_record:
  assumes ne: "A \<noteq> []" and wf: "\<forall>x\<in>set A. wf_item x"
  shows "parse_response ([10, 10] @ concat (map answer_block A)) =
         fold (\<lambda>(q, a). dict_set q a) A []"
proof -
  from ne obtain xs q a where A: "A = xs @ [(q, a)]"
    by (cases A rule: rev_cases) auto
  have wfx: "\<forall>x\<in>set xs. wf_item x" and wfq: "wf_item (q, a)"
    using wf A by simp_all
  have a: "a \<noteq> []" "\<not> isspace (last a)"
    using wfq by (simp_all add: wf_item_def wf_answer_def)
  define M where "M = concat (map answer_block xs) @ id_line q @ 10 # answer_line a"
  have eq: "[10, 10] @ concat (map answer_block A) = [10, 10] @ M @ [10, 10]"
    by (simp add: A M_def answer_block_def str_newline str_newline2)
  have "hd M = 81"
  proof (cases xs)
    case Nil
    then show ?thesis
      using wfq wf_id_hd [of q] by (simp add: M_def id_line_def wf_item_def)
  next
    case (Cons y ys)
    then have "wf_item y" using wfx by simp
    then show ?thesis
      using Cons answer_block_hd [of y] by (simp add: M_def)
  qed
  moreover have "last M = last a"
    using a by (simp add: M_def answer_line_def)
  moreover have "M \<noteq> []"
    by (simp add: M_def)
  ultimately have 1: "strip ([10, 10] @ M @ [10, 10]) = M"
    using a by (intro strip_core) (simp_all add: isspace_def)
  have 2: "split_str [10] M = concat (map block_lines xs) @ [id_line q, answer_line a]"
  proof -
    have "split_str [10] (id_line q @ 10 # answer_line a) = id_line q # split_str [10] (answer_line a)"
      using wfq id_line_no_newline by (intro split_str_char_line) blast
    moreover have "split_str [10] (answer_line a) = [answer_line a]"
      using wfq answer_line_no_newline [of q a] by (intro split_str_absent) simp_all
    ultimately show ?thesis
      using wfx by (simp add: M_def split_answer_blocks)
  qed
  have 3: "parse_lines [] (concat (map block_lines xs) @ [id_line q, answer_line a]) =
      dict_set q a (fold (\<lambda>(q, a). dict_set q a) xs [])"
  proof -
    have "parse_lines [] (concat (map block_lines xs) @ [id_line q, answer_line a]) =
        parse_lines (fold (\<lambda>(q, a). dict_set q a) xs []) [id_line q, answer_line a]"
      using wfx by (rule parse_lines_blocks)
    also have "\<dots> = parse_lines (dict_set q a (fold (\<lambda>(q, a). dict_set q a) xs [])) []"
      using wfq by (rule parse_lines_block)
    finally show ?thesis by simp
  qed
  have "parse_response ([10, 10] @ concat (map answer_block A)) =
      dict_set q a (fold (\<lambda>(q, a). dict_set q a) xs [])"
    by (simp only: parse_response_def eq str_newline 1 2 3)
  then show ?thesis
    by (simp add: A)
qed

lemma dict_set_not_Nil: "dict_set k v d \<noteq> []"
  by (cases d) (auto split: if_splits)

lemma map_of_QUESTIONS:
  assumes "q \<in> set (map fst QUESTIONS)"
  obtains e where "map_of QUESTIONS q = Some e" and "(q, e) \<in> set QUESTIONS"
proof -
  from assms have "map_of QUESTIONS q \<noteq> None"
    by (simp add: map_of_eq_None_iff)
  then obtain e where "map_of QUESTIONS q = Some e" by blast
  then show thesis
    using that map_of_SomeD by fastforce
qed

lemma write_answers_known:
  "\<forall>x\<in>set A. fst x \<in> set (map fst QUESTIONS) \<Longrightarrow>
   write_answers f A = (f @ concat (map answer_block A), None)"
proof (induction A arbitrary: f)
  case Nil
  show ?case by simp
next
  case (Cons x A)
  obtain q a where x: "x = (q, a)" by (cases x)
  with Cons.prems have "q \<in> set (map fst QUESTIONS)" by simp
  then obtain e where e: "map_of QUESTIONS q = Some e"
    by (rule map_of_QUESTIONS)
  then have "answer_block (q, a) =
      (q @ str '': '' @ question e @ str ''\<newline>'') @ (str ''Answer: '' @ a @ str ''\<newline>\<newline>'')"
    by (simp add: answer_block_def id_line_def answer_line_def question_text_def)
  then show ?case
    using Cons x e by (simp add: Let_def)
qed

lemma check_options_valid:
  "\<forall>(q, a)\<in>set A. q \<in> set (map fst QUESTIONS) \<and> a \<in> set (valid_options q) \<Longrightarrow>
   check_options A = Inr None"
proof (induction A)
  case Nil
  show ?case by simp
next
  case (Cons x A)
  obtain q a where x: "x = (q, a)" by (cases x)
  with Cons.prems have q: "q \<in> set (map fst QUESTIONS)" and a: "a \<in> set (valid_options q)"
    by simp_all
  from q obtain e where e: "map_of QUESTIONS q = Some e"
    by (rule map_of_QUESTIONS)
  with a have "a \<in> set (options e)"
    by (simp add: valid_options_def)
  then show ?case
    using Cons x e by simp
qed

lemma valid_submission_key:
  assumes "valid_submission A" and "x \<in> set A"
  shows "fst x \<in> set (map fst QUESTIONS)"
proof -
  have "fst x \<in> set (map fst A)"
    using assms(2) by simp
  moreover have "set (map fst A) = set (map fst QUESTIONS)"
    using assms(1) by (simp add: valid_submission_def)
  ultimately show ?thesis by blast
qed

lemma valid_submission_option:
  "valid_submission A \<Longrightarrow> (q, a) \<in> set A \<Longrightarrow> a \<in> set (valid_options q)"
  by (auto simp: valid_submission_def)

lemma submit_answers_valid:
  assumes "valid_submission A"
  shows "submit_answers Writable t file A =
    (Inr \<lparr>status_code = 200, json_content = Recorded t A\<rparr>,
     Content (write_header t @ concat (map answer_block A)))"
proof -
  have "set (map fst QUESTIONS) = set (map fst A)"
    using assms by (simp add: valid_submission_def)
  moreover have "check_options A = Inr None"
    using assms valid_submission_key valid_submission_option
    by (intro check_options_valid) fastforce
  moreover have "write_answers (write_header t) A =
      (write_header t @ concat (map answer_block A), None)"
    using assms valid_submission_key by (intro write_answers_known) blast
  ultimately show ?thesis
    by (simp add: submit_answers_def Let_def)
qed

lemma valid_submission_wf:
  assumes "valid_submission A"
  shows "\<forall>x\<in>set A. wf_item x"
proof
  fix x assume x: "x \<in> set A"
  obtain q a where qa: "x = (q, a)" by (cases x)
  with x assms have q: "q \<in> set (map fst QUESTIONS)" and a: "a \<in> set (valid_options q)"
    using valid_submission_key [of A x] valid_submission_option [of A q a] by simp_all
  from q obtain e where e: "map_of QUESTIONS q = Some e" "(q, e) \<in> set QUESTIONS"
    by (rule map_of_QUESTIONS)
  with QUESTIONS_wf have "wf_id q" "plain (question e)" "list_all wf_answer (options e)"
    by (auto simp: wf_catalog_def list_all_iff)
  with a e show "wf_item x"
    by (simp add: qa wf_item_def question_text_def valid_options_def list_all_iff)
qed

lemma valid_submission_not_Nil: "valid_submission A \<Longrightarrow> A \<noteq> []"
  by (auto simp: valid_submission_def QUESTIONS_def)

lemma set_separator: "set separator = {61}"
  by (simp add: separator_def str_def)

lemma answer_block_no_equals: "wf_item x \<Longrightarrow> 61 \<notin> set (answer_block x)"
  by (cases x)
    (simp add: wf_item_def wf_id_def wf_answer_def plain_iff answer_block_def id_line_def
      answer_line_def str_def)

lemma answer_block_no_return: "wf_item x \<Longrightarrow> 13 \<notin> set (answer_block x)"
  by (cases x)
    (simp add: wf_item_def wf_id_def wf_answer_def plain_iff answer_block_def id_line_def
      answer_line_def str_def)

lemma universal_newlines_plain: "13 \<notin> set s \<Longrightarrow> universal_newlines s = s"
  by (induction s rule: universal_newlines.induct) simp_all

lemma universal_newlines_tail:
  "13 \<notin> set y \<Longrightarrow> \<exists>p. universal_newlines (x @ 10 # y) = p @ 10 # y"
proof (induction x rule: universal_newlines.induct)
  case 1
  then have "universal_newlines (10 # y) = [] @ 10 # y"
    by (simp add: universal_newlines_plain)
  then show ?case
    by (simp only: append_Nil) blast
next
  case (2 c)
  then have y: "universal_newlines (10 # y) = 10 # y"
    by (simp add: universal_newlines_plain)
  show ?case
  proof (cases "c = 13")
    case True
    with 2 have "universal_newlines ([c] @ 10 # y) = [] @ 10 # y"
      by (simp add: universal_newlines_plain)
    then show ?thesis by blast
  next
    case False
    with y have "universal_newlines ([c] @ 10 # y) = [c] @ 10 # y"
      by simp
    then show ?thesis by blast
  qed
next
  case (3 c d cs)
  show ?case
  proof (cases "c = 13")
    case False
    with 3 obtain p where "universal_newlines ((d # cs) @ 10 # y) = p @ 10 # y"
      by blast
    with False have "universal_newlines ((c # d # cs) @ 10 # y) = (c # p) @ 10 # y"
      by simp
    then show ?thesis by blast
  next
    case True
    show ?thesis
    proof (cases "d = 10")
      case d: True
      with True 3 obtain p where "universal_newlines (cs @ 10 # y) = p @ 10 # y"
        by blast
      with True d have "universal_newlines ((c # d # cs) @ 10 # y) = (10 # p) @ 10 # y"
        by simp
      then show ?thesis by blast
    next
      case d: False
      with True 3 obtain p where "universal_newlines ((d # cs) @ 10 # y) = p @ 10 # y"
        by blast
      with True d have "universal_newlines ((c # d # cs) @ 10 # y) = (10 # p) @ 10 # y"
        by simp
      then show ?thesis by blast
    qed
  qed
qed

lemma str_in_first_block: "str_in (str ''Answer:'') (l @ answer_block x @ r)"
proof -
  obtain q a where x: "x = (q, a)" by (cases x)
  have "l @ answer_block x @ r =
      (l @ id_line q @ [10]) @ str ''Answer:'' @ (32 # a @ [10, 10] @ r)"
    by (simp add: x answer_block_def answer_line_def str_def)
  then show ?thesis
    by (simp only: str_in_append)
qed

lemma scan_written_record:
  assumes ne: "A \<noteq> []" and wf: "\<forall>x\<in>set A. wf_item x"
    and p: "p = [] \<or> last p \<notin> set separator"
  shows "scan_responses
           (rev (split_str separator (p @ separator @ [10, 10] @ concat (map answer_block A)))) =
         Some (fold (\<lambda>(q, a). dict_set q a) A [])"
proof -
  define r where "r = [10, 10] @ concat (map answer_block A)"
  have sep: "separator \<noteq> []"
    using set_separator by auto
  have "hd separator = 61"
    using sep set_separator hd_in_set [of separator] by simp
  moreover have "61 \<notin> set r"
    using wf answer_block_no_equals by (auto simp: r_def)
  ultimately have "split_str separator r = [r]"
    using sep by (intro split_str_absent) simp_all
  then obtain pre where "split_str separator (p @ separator @ r) = pre @ [r]"
    using split_str_last_section [OF sep] p by blast
  then have sections:
    "rev (split_str separator (p @ separator @ [10, 10] @ concat (map answer_block A))) =
      r # rev pre"
    by (simp add: r_def)
  from ne obtain x xs where "A = x # xs" by (cases A) auto
  then have "r = [10, 10] @ answer_block x @ concat (map answer_block xs)"
    by (simp add: r_def)
  then have marker: "str_in (str ''Answer:'') r"
    by (simp only: str_in_first_block)
  have parsed: "parse_response r = fold (\<lambda>(q, a). dict_set q a) A []"
    unfolding r_def using ne wf by (rule parse_response_record)
  have "fold (\<lambda>(q, a). dict_set q a) A [] \<noteq> []"
  proof -
    from ne obtain xs y where "A = xs @ [y]" by (cases A rule: rev_cases) auto
    then show ?thesis
      by (cases y) (simp add: dict_set_not_Nil)
  qed
  then have "scan_responses (r # rev pre) = Some (fold (\<lambda>(q, a). dict_set q a) A [])"
    by (simp add: marker parsed)
  then show ?thesis
    by (simp only: sections)
qed

section \<open>Properties of the decoder\<close>

lemma get_latest_Content:
  "get_latest_student_responses out (Content c) =
     Inr (scan_responses (rev (split_str separator (universal_newlines c))))"
  by (simp add: get_latest_student_responses_def read_latest_def)

lemma get_latest_Absent: "get_latest_student_responses out Absent = Inr None"
  by (simp add: get_latest_student_responses_def read_latest_def)

lemma get_latest_Unreadable:
  "get_latest_student_responses out (Unreadable e) =
     (if e = FileNotFoundError then Inr None else handle_exception out)"
  by (cases e) (simp_all add: get_latest_student_responses_def read_latest_def)

lemma get_latest_Unreadable_Open: "get_latest_student_responses Open (Unreadable e) = Inr None"
  by (simp add: get_latest_Unreadable handle_exception_def)

lemma get_latest_cases:
  "get_latest_student_responses Open f =
     Inr (case f of
            Content c \<Rightarrow> scan_responses (rev (split_str separator (universal_newlines c)))
          | _ \<Rightarrow> None)"
  by (cases f) (simp_all add: get_latest_Content get_latest_Absent get_latest_Unreadable_Open)

lemma get_latest_readable:
  "get_latest_student_responses out Absent = Inr None \<and>
   get_latest_student_responses out (Content []) = Inr None \<and>
   (\<exists>r. get_latest_student_responses out (Content c) = Inr r)"
  by (simp add: get_latest_Absent get_latest_Content split_str.simps[of _ "[]"]
      str_Answer_not_Nil)

lemma scan_responses_filter:
  "scan_responses rs =
     (case filter (\<lambda>m. m \<noteq> []) (map parse_response (filter (str_in (str ''Answer:'')) rs)) of
        [] \<Rightarrow> None
      | m # older \<Rightarrow> Some m)"
  by (induction rs) (simp_all add: Let_def)

lemma scan_responses_not_empty: "scan_responses rs \<noteq> Some []"
  by (induction rs) (simp_all add: Let_def)

lemma read_back_valid:
  assumes "valid_submission A"
  shows "get_latest_student_responses out
           (Content (write_header t @ concat (map answer_block A))) =
         Inr (Some A)"
proof -
  have wf: "\<forall>x\<in>set A. wf_item x"
    using assms by (rule valid_submission_wf)
  define y where "y = separator @ [10, 10] @ concat (map answer_block A)"
  have "13 \<notin> set y"
    using wf answer_block_no_return by (auto simp: y_def set_separator)
  then obtain p where
    "universal_newlines ((separator @ [10] @ str ''Response submitted at: '' @ t) @ 10 # y) =
       p @ 10 # y"
    using universal_newlines_tail by blast
  moreover have "write_header t @ concat (map answer_block A) =
      (separator @ [10] @ str ''Response submitted at: '' @ t) @ 10 # y"
    by (simp add: write_header_def Let_def y_def str_newline str_newline2)
  ultimately have read: "universal_newlines (write_header t @ concat (map answer_block A)) =
      (p @ [10]) @ separator @ [10, 10] @ concat (map answer_block A)"
    by (simp add: y_def)
  have "p @ [10] = [] \<or> last (p @ [10]) \<notin> set separator"
    by (simp add: set_separator)
  with valid_submission_not_Nil [OF assms] wf
  have "scan_responses (rev (split_str separator
      ((p @ [10]) @ separator @ [10, 10] @ concat (map answer_block A)))) =
      Some (fold (\<lambda>(q, a). dict_set q a) A [])"
    by (rule scan_written_record)
  moreover have "fold (\<lambda>(q, a). dict_set q a) A [] = [] @ A"
    using assms by (intro fold_dict_set_distinct) (simp add: valid_submission_def)
  ultimately show ?thesis
    by (simp only: get_latest_Content read append_Nil)
qed

text \<open>
  C3. For every stored text, the decoder returns what the specification describes: the
  text that is read is split on the separator of sixty \<open>=\<close>, the sections are visited in reverse
  order, only sections containing \<open>Answer:\<close> are parsed, a section whose mapping is
  empty is passed over for the next older one, and the result is \<open>None\<close> when no
  section yields a non-empty mapping.
\<close>

theorem section_selection:
  "get_latest_student_responses out (Content c) =
     Inr (latest_record_spec (universal_newlines c))"
  by (simp add: get_latest_Content latest_record_spec_def scan_responses_filter rev_filter)

text \<open>
  C4. The decoder is meant never to raise, and the code does not keep that: for a
  response file that cannot be read, the handler of line 110 prints before it returns
  \<open>None\<close>, and when standard output is closed the \<open>ValueError\<close> of that \<open>print\<close>
  reaches the caller. With standard output open the same file gives \<open>None\<close>.
\<close>

theorem decoder_raises_when_print_fails:
  "get_latest_student_responses closed_stdout protected_file =
     Inl (ValueError (str ''I/O operation on closed file.'')) \<and>
   get_latest_student_responses Open protected_file = Inr None"
  by (simp add: closed_stdout_def protected_file_def get_latest_Unreadable handle_exception_def)

text \<open>
  C10. The decoder never returns an empty mapping: its result is \<open>None\<close> or a mapping
  with at least one pair.
\<close>

theorem never_empty_mapping: "get_latest_student_responses out f \<noteq> Inr (Some [])"
proof (cases f)
  case Absent
  then show ?thesis by (simp add: get_latest_Absent)
next
  case (Unreadable e)
  then show ?thesis
    by (cases out) (simp_all add: get_latest_Unreadable handle_exception_def)
next
  case (Content c)
  then show ?thesis by (simp add: get_latest_Content scan_responses_not_empty)
qed

section \<open>Properties of the prompts\<close>

lemma build_behavior_summary_Inr:
  "build_behavior_summary Open f =
     Inr (summary_text
       (case f of
          Content c \<Rightarrow> scan_responses (rev (split_str separator (universal_newlines c)))
        | _ \<Rightarrow> None))"
  by (simp add: build_behavior_summary_def get_latest_cases)

lemma persona_messages_length: "length (persona_messages p summary msg) = 4"
  by (cases p) (simp_all add: nicholas_messages_def angel_messages_def devil_messages_def Let_def)

lemma persona_messages_roles:
  "map role (persona_messages p summary msg) = [System, User, Assistant, User]"
  by (cases p) (simp_all add: nicholas_messages_def angel_messages_def devil_messages_def Let_def)

lemma persona_messages_last:
  "content (last (persona_messages p summary msg)) = msg"
  by (cases p) (simp_all add: nicholas_messages_def angel_messages_def devil_messages_def Let_def)

lemma chat_persona_messages:
  "build_behavior_summary out f = Inr summary \<Longrightarrow>
   chat p out f msg = Inr (persona_messages p summary msg)"
  by (cases p) (simp_all add: chat_nicholas_def chat_angel_def chat_devil_def)

lemma chat_build_behavior_summary:
  "chat p out f msg =
     (case build_behavior_summary out f of
        Inl e \<Rightarrow> Inl e
      | Inr s \<Rightarrow> Inr (persona_messages p s msg))"
  by (cases p; cases "build_behavior_summary out f")
    (simp_all add: chat_nicholas_def chat_angel_def chat_devil_def)

text \<open>
  C6. For each of the three personas, every behavior summary (the empty one too) and
  every live message, the prompt has exactly four messages with the roles system,
  user, assistant, user, and the content of the last one is the live message. Each
  handler sends such a prompt, built from the summary of the stored responses: always
  when standard output is open, and otherwise unless building the summary raises.
\<close>

theorem prompt_shape:
  "length (persona_messages p summary msg) = 4 \<and>
   map role (persona_messages p summary msg) = [System, User, Assistant, User] \<and>
   content (last (persona_messages p summary msg)) = msg \<and>
   (\<exists>s. build_behavior_summary Open f = Inr s \<and>
        chat p Open f msg = Inr (persona_messages p s msg)) \<and>
   chat p out f msg =
     (case build_behavior_summary out f of
        Inl e \<Rightarrow> Inl e
      | Inr s \<Rightarrow> Inr (persona_messages p s msg))"
proof -
  obtain s where "build_behavior_summary Open f = Inr s"
    using build_behavior_summary_Inr by blast
  then have "\<exists>s. build_behavior_summary Open f = Inr s \<and>
      chat p Open f msg = Inr (persona_messages p s msg)"
    using chat_persona_messages by blast
  moreover note chat_build_behavior_summary [of p out f msg]
  ultimately show ?thesis
    by (simp only: persona_messages_length persona_messages_roles persona_messages_last simp_thms)
qed

section \<open>The round trip through the file\<close>

lemma example_answers_valid: "valid_submission example_answers"
  by (simp add: valid_submission_def example_answers_def valid_options_def QUESTIONS_def str_def)

lemma reordered_answers_valid: "valid_submission reordered_answers"
  by (auto simp: valid_submission_def reordered_answers_def valid_options_def QUESTIONS_def str_def)

text \<open>
  C1. For every submitted answer set whose keys are the ids of the catalog and whose
  values are options of their questions, and every timestamp text, writing the
  answers and then reading the file back gives the submitted mapping again.
\<close>

theorem round_trip:
  "valid_submission A \<Longrightarrow>
   get_latest_student_responses out (snd (submit_answers Writable t file A)) = Inr (Some A)"
  by (simp add: submit_answers_valid read_back_valid)

theorem round_trip_witness:
  "valid_submission example_answers \<and>
   get_latest_student_responses Open
     (snd (submit_answers Writable example_timestamp Absent example_answers)) =
   Inr (Some example_answers)"
  using example_answers_valid round_trip [OF example_answers_valid] by simp

text \<open>
  C8. For two valid answer sets, writing the first and then the second leaves the
  file with the record of the second only: its text is the header and the blocks of
  the second submission, whatever the first submission, its timestamp and the earlier
  file were, and reading it back gives the second answer set.
\<close>

theorem last_write_wins:
  "valid_submission A1 \<Longrightarrow> valid_submission A2 \<Longrightarrow>
   (let f1 = snd (submit_answers Writable t1 f0 A1);
        f2 = snd (submit_answers Writable t2 f1 A2)
    in f2 = Content (write_header t2 @ concat (map answer_block A2)) \<and>
       get_latest_student_responses out f2 = Inr (Some A2))"
  by (simp add: submit_answers_valid read_back_valid)

theorem last_write_wins_witness:
  "valid_submission reordered_answers \<and> valid_submission example_answers \<and>
   (let f1 = snd (submit_answers Writable (str ''2025-12-05 18:00:00'') Absent reordered_answers);
        f2 = snd (submit_answers Writable example_timestamp f1 example_answers)
    in f2 = Content (write_header example_timestamp @ concat (map answer_block example_answers)) \<and>
       get_latest_student_responses Open f2 = Inr (Some example_answers))"
  using reordered_answers_valid example_answers_valid
    last_write_wins [OF reordered_answers_valid example_answers_valid]
  by simp

section \<open>Validation\<close>

lemma check_options_first:
  assumes "\<forall>(q', a')\<in>set pre. q' \<in> set (map fst QUESTIONS) \<and> a' \<in> set (valid_options q')"
    and "q \<in> set (map fst QUESTIONS)" and "a \<notin> set (valid_options q)"
  shows "check_options (pre @ (q, a) # post) = Inr (Some q)"
  using assms(1)
proof (induction pre)
  case Nil
  from assms(2) obtain e where "map_of QUESTIONS q = Some e"
    by (rule map_of_QUESTIONS)
  with assms(3) show ?case
    by (simp add: valid_options_def)
next
  case (Cons x pre)
  obtain q' a' where x: "x = (q', a')" by (cases x)
  with Cons.prems have q': "q' \<in> set (map fst QUESTIONS)" and a': "a' \<in> set (valid_options q')"
    by simp_all
  from q' obtain e where e: "map_of QUESTIONS q' = Some e"
    by (rule map_of_QUESTIONS)
  with a' have "a' \<in> set (options e)"
    by (simp add: valid_options_def)
  then show ?case
    using Cons x e by simp
qed

lemma keys_in_catalog:
  assumes "set (map fst A) = set (map fst QUESTIONS)" and "(q, a) \<in> set A"
  shows "q \<in> set (map fst QUESTIONS)"
proof -
  have "fst (q, a) \<in> set (map fst A)"
    using assms(2) by (simp only: set_map) (rule imageI)
  then show ?thesis
    using assms(1) by simp
qed

lemma partial_answers_keys: "set (map fst partial_answers) \<noteq> set (map fst QUESTIONS)"
  by (auto simp: partial_answers_def QUESTIONS_def str_def)

lemma partial_answers_missing:
  "{qid \<in> set (map fst QUESTIONS). qid \<notin> set (map fst partial_answers)} =
   {str ''Q2'', str ''Q3'', str ''Q4''}"
  by (auto simp: partial_answers_def QUESTIONS_def str_def)

lemma lowercase_answers_invalid:
  "set (map fst lowercase_answers) = set (map fst QUESTIONS) \<and>
   lowercase_answers =
     [(str ''Q1'', str ''Submitted on time (solid responsible energy)'')] @
     (str ''Q2'', str ''googled aggressively'') #
     [(str ''Q3'', str ''I type in the chat (participation ninja)''),
      (str ''Q4'', str ''1 hour (efficient or reckless? undecided)'')] \<and>
   (\<forall>(q, a)\<in>set [(str ''Q1'', str ''Submitted on time (solid responsible energy)'')].
      a \<in> set (valid_options q)) \<and>
   str ''googled aggressively'' \<notin> set (valid_options (str ''Q2''))"
  by (simp add: lowercase_answers_def valid_options_def QUESTIONS_def str_def)

lemma example_answers_options:
  "set (map fst example_answers) = set (map fst QUESTIONS) \<and>
   (\<forall>(q, a)\<in>set example_answers. a \<in> set (valid_options q))"
  using example_answers_valid by (simp add: valid_submission_def)

text \<open>
  C5. A submission whose key set differs from the id set of the catalog is rejected
  with status 400 and the set of the catalog ids that it lacks (so a submission with
  all the ids and an extra one is rejected, with an empty set). A submission with the
  right keys in which an answer is not, character for character, an option of its
  question is rejected with status 400 naming the id of the first such answer in the
  order of the submission. A submission with the right keys and valid answers is
  accepted, and the reply carries the submitted answers unchanged.
\<close>

theorem validation_contract:
  "(set (map fst A) \<noteq> set (map fst QUESTIONS) \<longrightarrow>
      submit_answers d t f A =
        (Inr \<lparr>status_code = 400,
              json_content = MissingAnswers {qid \<in> set (map fst QUESTIONS). qid \<notin> set (map fst A)}\<rparr>,
         f)) \<and>
   (set (map fst A) = set (map fst QUESTIONS) \<and> A = pre @ (qid, answer) # post \<and>
    (\<forall>(q, a)\<in>set pre. a \<in> set (valid_options q)) \<and> answer \<notin> set (valid_options qid) \<longrightarrow>
      submit_answers d t f A =
        (Inr \<lparr>status_code = 400,
              json_content = ErrorText (str ''Invalid answer for '' @ qid @
                str ''. Please select from the provided options.'')\<rparr>,
         f)) \<and>
   (set (map fst A) = set (map fst QUESTIONS) \<and> (\<forall>(q, a)\<in>set A. a \<in> set (valid_options q)) \<longrightarrow>
      fst (submit_answers Writable t f A) =
        Inr \<lparr>status_code = 200, json_content = Recorded t A\<rparr>)"
proof (intro conjI impI)
  assume "set (map fst A) \<noteq> set (map fst QUESTIONS)"
  then have "set (map fst QUESTIONS) \<noteq> set (map fst A)"
    by (rule not_sym)
  moreover have "set (map fst QUESTIONS) - set (map fst A) =
      {qid \<in> set (map fst QUESTIONS). qid \<notin> set (map fst A)}"
    by blast
  ultimately show "submit_answers d t f A =
      (Inr \<lparr>status_code = 400,
            json_content = MissingAnswers {qid \<in> set (map fst QUESTIONS). qid \<notin> set (map fst A)}\<rparr>,
       f)"
    by (simp add: submit_answers_def Let_def)
next
  assume h: "set (map fst A) = set (map fst QUESTIONS) \<and> A = pre @ (qid, answer) # post \<and>
    (\<forall>(q, a)\<in>set pre. a \<in> set (valid_options q)) \<and> answer \<notin> set (valid_options qid)"
  then have k: "set (map fst A) = set (map fst QUESTIONS)"
    and A: "A = pre @ (qid, answer) # post"
    and pre: "\<forall>(q, a)\<in>set pre. a \<in> set (valid_options q)"
    and bad: "answer \<notin> set (valid_options qid)"
    by blast+
  have "check_options (pre @ (qid, answer) # post) = Inr (Some qid)"
  proof (rule check_options_first)
    show "\<forall>(q', a')\<in>set pre. q' \<in> set (map fst QUESTIONS) \<and> a' \<in> set (valid_options q')"
    proof (intro ballI, clarify)
      fix q' a' assume m: "(q', a') \<in> set pre"
      then have "(q', a') \<in> set A" by (simp add: A)
      then have "q' \<in> set (map fst QUESTIONS)" by (rule keys_in_catalog [OF k])
      moreover have "a' \<in> set (valid_options q')" using pre m by blast
      ultimately show "q' \<in> set (map fst QUESTIONS) \<and> a' \<in> set (valid_options q')" ..
    qed
    have "(qid, answer) \<in> set A" by (simp add: A)
    then show "qid \<in> set (map fst QUESTIONS)" by (rule keys_in_catalog [OF k])
    show "answer \<notin> set (valid_options qid)" by (rule bad)
  qed
  then have "check_options A = Inr (Some qid)" by (simp only: A)
  moreover have "\<not> set (map fst QUESTIONS) \<noteq> set (map fst A)" by (simp only: k)
  ultimately show "submit_answers d t f A =
      (Inr \<lparr>status_code = 400,
            json_content = ErrorText (str ''Invalid answer for '' @ qid @
              str ''. Please select from the provided options.'')\<rparr>,
       f)"
    by (simp only: submit_answers_def Let_def if_False sum.case option.case)
next
  assume h: "set (map fst A) = set (map fst QUESTIONS) \<and>
    (\<forall>(q, a)\<in>set A. a \<in> set (valid_options q))"
  then have k: "set (map fst A) = set (map fst QUESTIONS)"
    and ok: "\<forall>(q, a)\<in>set A. a \<in> set (valid_options q)"
    by blast+
  have "check_options A = Inr None"
  proof (rule check_options_valid, intro ballI, clarify)
    fix q a assume m: "(q, a) \<in> set A"
    then have "q \<in> set (map fst QUESTIONS)" by (rule keys_in_catalog [OF k])
    moreover have "a \<in> set (valid_options q)" using ok m by blast
    ultimately show "q \<in> set (map fst QUESTIONS) \<and> a \<in> set (valid_options q)" ..
  qed
  moreover have "write_answers (write_header t) A =
      (write_header t @ concat (map answer_block A), None)"
  proof (rule write_answers_known, intro ballI)
    fix x assume "x \<in> set A"
    then have "(fst x, snd x) \<in> set A" by simp
    then show "fst x \<in> set (map fst QUESTIONS)" by (rule keys_in_catalog [OF k])
  qed
  moreover have "\<not> set (map fst QUESTIONS) \<noteq> set (map fst A)" by (simp only: k)
  ultimately show "fst (submit_answers Writable t f A) =
      Inr \<lparr>status_code = 200, json_content = Recorded t A\<rparr>"
    by (simp only: submit_answers_def Let_def if_False sum.case option.case disk.case
        prod.case fst_conv)
qed

theorem validation_contract_witness:
  "set (map fst partial_answers) \<noteq> set (map fst QUESTIONS) \<and>
   submit_answers Writable example_timestamp Absent partial_answers =
     (Inr \<lparr>status_code = 400,
           json_content = MissingAnswers {str ''Q2'', str ''Q3'', str ''Q4''}\<rparr>, Absent) \<and>
   submit_answers Writable example_timestamp Absent lowercase_answers =
     (Inr \<lparr>status_code = 400,
           json_content = ErrorText (str ''Invalid answer for '' @ str ''Q2'' @
             str ''. Please select from the provided options.'')\<rparr>, Absent) \<and>
   fst (submit_answers Writable example_timestamp Absent example_answers) =
     Inr \<lparr>status_code = 200, json_content = Recorded example_timestamp example_answers\<rparr>"
proof -
  have "submit_answers Writable example_timestamp Absent partial_answers =
      (Inr \<lparr>status_code = 400,
            json_content = MissingAnswers
              {qid \<in> set (map fst QUESTIONS). qid \<notin> set (map fst partial_answers)}\<rparr>, Absent)"
    using validation_contract [where A = partial_answers and d = Writable
        and t = example_timestamp and f = Absent, THEN conjunct1]
      partial_answers_keys
    by (rule mp)
  then have 1: "submit_answers Writable example_timestamp Absent partial_answers =
      (Inr \<lparr>status_code = 400,
            json_content = MissingAnswers {str ''Q2'', str ''Q3'', str ''Q4''}\<rparr>, Absent)"
    by (simp only: partial_answers_missing)
  have 2: "submit_answers Writable example_timestamp Absent lowercase_answers =
      (Inr \<lparr>status_code = 400,
            json_content = ErrorText (str ''Invalid answer for '' @ str ''Q2'' @
              str ''. Please select from the provided options.'')\<rparr>, Absent)"
    using validation_contract [where A = lowercase_answers and d = Writable
        and t = example_timestamp and f = Absent, THEN conjunct2, THEN conjunct1]
      lowercase_answers_invalid
    by (rule mp)
  have 3: "fst (submit_answers Writable example_timestamp Absent example_answers) =
      Inr \<lparr>status_code = 200, json_content = Recorded example_timestamp example_answers\<rparr>"
    using validation_contract [where A = example_answers and t = example_timestamp
        and f = Absent, THEN conjunct2, THEN conjunct2]
      example_answers_options
    by (rule mp)
  from partial_answers_keys 1 2 3 show ?thesis
    by (intro conjI)
qed

text \<open>
  No exception leaves the handler: after the key check of line 180 every lookup in
  \<open>QUESTIONS\<close> finds its key.
\<close>

lemma check_options_returns:
  "\<forall>x\<in>set A. fst x \<in> set (map fst QUESTIONS) \<Longrightarrow> \<exists>r. check_options A = Inr r"
proof (induction A)
  case Nil
  show ?case by simp
next
  case (Cons x A)
  obtain q a where x: "x = (q, a)" by (cases x)
  with Cons.prems have "q \<in> set (map fst QUESTIONS)" by simp
  then obtain e where "map_of QUESTIONS q = Some e"
    by (rule map_of_QUESTIONS)
  then show ?case
    using Cons x by simp
qed

lemma submit_answers_returns: "\<exists>r. fst (submit_answers d t f A) = Inr r"
proof (cases "set (map fst QUESTIONS) = set (map fst A)")
  case False
  then show ?thesis
    by (simp add: submit_answers_def Let_def)
next
  case True
  have keys: "\<forall>x\<in>set A. fst x \<in> set (map fst QUESTIONS)"
  proof
    fix x assume "x \<in> set A"
    then have "(fst x, snd x) \<in> set A" by simp
    then show "fst x \<in> set (map fst QUESTIONS)"
      by (rule keys_in_catalog [OF True [symmetric]])
  qed
  then obtain r where r: "check_options A = Inr r"
    using check_options_returns by blast
  have w: "write_answers (write_header t) A =
      (write_header t @ concat (map answer_block A), None)"
    using keys by (rule write_answers_known)
  show ?thesis
    using True r w by (cases r; cases d) (simp_all add: submit_answers_def Let_def)
qed

section \<open>Failure of the write\<close>

lemma submit_answers_failing:
  assumes "valid_submission A"
  shows "submit_answers (Failing m file') t file A =
    (Inr \<lparr>status_code = 500,
          json_content = ErrorText (str ''Failed to save answers: '' @ m)\<rparr>, file')"
proof -
  have "set (map fst QUESTIONS) = set (map fst A)"
    using assms by (simp add: valid_submission_def)
  moreover have "check_options A = Inr None"
    using assms valid_submission_key valid_submission_option
    by (intro check_options_valid) fastforce
  ultimately show ?thesis
    by (simp add: submit_answers_def Let_def)
qed

text \<open>
  C9, as the code has it. When the write fails with an exception, a valid submission
  is answered with status 500, no exception leaves the handler, and the error text is
  \<open>Failed to save answers: \<close> followed by the text of the exception, unchanged.
\<close>

theorem store_failure_response:
  "valid_submission A \<Longrightarrow>
   submit_answers (Failing m file') t file A =
     (Inr \<lparr>status_code = 500,
           json_content = ErrorText (str ''Failed to save answers: '' @ m)\<rparr>, file')"
  by (rule submit_answers_failing)

theorem store_failure_response_witness:
  "valid_submission example_answers \<and>
   submit_answers (Failing disk_full Absent) example_timestamp Absent example_answers =
     (Inr \<lparr>status_code = 500,
           json_content = ErrorText (str ''Failed to save answers: '' @ disk_full)\<rparr>, Absent)"
  using example_answers_valid store_failure_response [OF example_answers_valid] by simp

text \<open>
  C9 as stated fails: the reply to a \<open>PermissionError\<close> contains the path of the file,
  and the replies to two different exceptions differ.
\<close>

theorem store_error_sanitized_counterexample:
  "fst (submit_answers (Failing permission_denied Absent) example_timestamp Absent example_answers) =
     Inr \<lparr>status_code = 500,
          json_content = ErrorText (str ''Failed to save answers: [Errno 13] Permission denied: '' @
            [0x27] @ str ''/srv/app/api/student_responses.txt'' @ [0x27])\<rparr> \<and>
   fst (submit_answers (Failing permission_denied Absent) example_timestamp Absent example_answers) \<noteq>
   fst (submit_answers (Failing disk_full Absent) example_timestamp Absent example_answers)"
  by (simp add: submit_answers_failing [OF example_answers_valid])
    (simp add: permission_denied_def disk_full_def str_def)

section \<open>The summary\<close>

lemma behavior_bullets_spec:
  "behavior_bullets qids d ls =
     ls @ map (\<lambda>qid. str ''- '' @ the (map_of d qid)) (filter (\<lambda>qid. qid \<in> fst ` set d) qids)"
proof (induction qids arbitrary: ls)
  case Nil
  show ?case by simp
next
  case (Cons q qids)
  show ?case
  proof (cases "map_of d q")
    case None
    then have "q \<notin> fst ` set d" by (simp add: map_of_eq_None_iff)
    with None Cons show ?thesis by simp
  next
    case (Some v)
    then have "q \<in> fst ` set d" by (metis map_of_eq_None_iff option.distinct(1))
    with Some Cons show ?thesis by simp
  qed
qed

lemma summary_text_spec: "summary_text r = summary_spec r"
  by (simp add: summary_text_def summary_spec_def bullets_spec_def behavior_bullets_spec
      split: option.split)

text \<open>
  C7. The summary is empty when the recovered mapping is \<open>None\<close> or empty. Otherwise
  it is the header line, one bullet, a dash and the answer, for each id of the catalog
  that is present in the mapping, in catalog order, and the instruction line; ids of
  the mapping that the catalog lacks give no bullet. \<open>build_behavior_summary\<close> returns
  this summary of what the decoder returned: always when standard output is open, and
  otherwise unless the decoder raises.
\<close>

theorem summarizer_contract:
  "summary_text None = [] \<and> summary_text (Some []) = [] \<and>
   summary_text r = summary_spec r \<and>
   (\<exists>r. get_latest_student_responses Open f = Inr r \<and>
        build_behavior_summary Open f = Inr (summary_spec r)) \<and>
   build_behavior_summary out f =
     (case get_latest_student_responses out f of
        Inl e \<Rightarrow> Inl e
      | Inr r \<Rightarrow> Inr (summary_spec r))"
proof -
  obtain r where "get_latest_student_responses Open f = Inr r"
    using get_latest_cases by blast
  then have "\<exists>r. get_latest_student_responses Open f = Inr r \<and>
      build_behavior_summary Open f = Inr (summary_spec r)"
    by (simp add: build_behavior_summary_def summary_text_spec)
  moreover have "build_behavior_summary out f =
     (case get_latest_student_responses out f of
        Inl e \<Rightarrow> Inl e
      | Inr r \<Rightarrow> Inr (summary_spec r))"
    by (cases "get_latest_student_responses out f")
      (simp_all add: build_behavior_summary_def summary_text_spec)
  moreover have "summary_text None = [] \<and> summary_text (Some []) = []"
    by (simp add: summary_text_def)
  ultimately show ?thesis
    using summary_text_spec by blast
qed

section \<open>The order of the written blocks\<close>

lemma blocks_in_catalog_order:
  assumes "map fst A = map fst Q"
    and "\<forall>(q, a)\<in>set A. m q = Some a"
    and "\<forall>(q, e)\<in>set Q. question_text q = question e"
  shows "concat (map (\<lambda>(qid, q).
               case m qid of
                 None \<Rightarrow> []
               | Some answer \<Rightarrow>
                   qid @ str '': '' @ question q @ str ''\<newline>'' @
                   str ''Answer: '' @ answer @ str ''\<newline>'' @
                   str ''\<newline>'') Q) =
         concat (map answer_block A)"
  using assms
proof (induction A arbitrary: Q)
  case Nil
  then show ?case by simp
next
  case (Cons x A)
  then obtain y Q' where Q: "Q = y # Q'" by (cases Q) auto
  obtain q a where x: "x = (q, a)" by (cases x)
  obtain q' e where y: "y = (q', e)" by (cases y)
  from Cons.prems(1) Q x y have q': "q' = q" and rest: "map fst A = map fst Q'"
    by simp_all
  from Cons.prems(2) x have m: "m q = Some a" and ms: "\<forall>(q, a)\<in>set A. m q = Some a"
    by simp_all
  from Cons.prems(3) Q y q' have t: "question_text q = question e"
    and ts: "\<forall>(q, e)\<in>set Q'. question_text q = question e"
    by simp_all
  have "answer_block (q, a) =
      q @ str '': '' @ question e @ str ''\<newline>'' @ str ''Answer: '' @ a @ str ''\<newline>'' @ str ''\<newline>''"
    by (simp add: answer_block_def id_line_def answer_line_def t str_def)
  then show ?case
    using Cons.IH [OF rest ms ts] by (simp add: Q x y q' m)
qed

lemma question_text_catalog: "\<forall>(q, e)\<in>set QUESTIONS. question_text q = question e"
  using QUESTIONS_distinct by (auto simp: question_text_def)

lemma encode_spec_catalog_order:
  assumes "distinct (map fst A)" and "map fst A = map fst QUESTIONS"
  shows "encode_spec A t = write_header t @ concat (map answer_block A)"
proof -
  have "\<forall>(q, a)\<in>set A. map_of A q = Some a"
    using assms(1) by auto
  then have "concat (map (\<lambda>(qid, q).
               case map_of A qid of
                 None \<Rightarrow> []
               | Some answer \<Rightarrow>
                   qid @ str '': '' @ question q @ str ''\<newline>'' @
                   str ''Answer: '' @ answer @ str ''\<newline>'' @
                   str ''\<newline>'') QUESTIONS) =
         concat (map answer_block A)"
    using assms(2) question_text_catalog by (intro blocks_in_catalog_order)
  then show ?thesis
    by (simp add: encode_spec_def write_header_def Let_def str_def)
qed

lemma reordered_blocks_differ:
  "concat (map answer_block reordered_answers) \<noteq>
   concat (map (\<lambda>(qid, q).
               case map_of reordered_answers qid of
                 None \<Rightarrow> []
               | Some answer \<Rightarrow>
                   qid @ str '': '' @ question q @ str ''\<newline>'' @
                   str ''Answer: '' @ answer @ str ''\<newline>'' @
                   str ''\<newline>'') QUESTIONS)"
  by (simp add: reordered_answers_def QUESTIONS_def answer_block_def id_line_def str_def)

text \<open>
  C2, as the code has it. For every valid submission the blocks are written in the
  order in which the ids appear in the submitted dictionary; the text is the
  specification's encoding, with its catalog order, when the submission lists the ids
  in catalog order.
\<close>

theorem written_in_submission_order:
  "valid_submission A \<Longrightarrow>
   snd (submit_answers Writable t f A) = Content (write_header t @ concat (map answer_block A)) \<and>
   (map fst A = map fst QUESTIONS \<longrightarrow>
      snd (submit_answers Writable t f A) = Content (encode_spec A t))"
proof -
  assume v: "valid_submission A"
  then have w: "snd (submit_answers Writable t f A) =
      Content (write_header t @ concat (map answer_block A))"
    by (simp add: submit_answers_valid)
  have "distinct (map fst A)"
    using v by (simp add: valid_submission_def)
  then have "map fst A = map fst QUESTIONS \<longrightarrow>
      encode_spec A t = write_header t @ concat (map answer_block A)"
    using encode_spec_catalog_order by blast
  with w show ?thesis
    by simp
qed

theorem written_in_submission_order_witness:
  "valid_submission example_answers \<and> map fst example_answers = map fst QUESTIONS \<and>
   snd (submit_answers Writable example_timestamp Absent example_answers) =
     Content (write_header example_timestamp @ concat (map answer_block example_answers)) \<and>
   snd (submit_answers Writable example_timestamp Absent example_answers) =
     Content (encode_spec example_answers example_timestamp)"
proof -
  have k: "map fst example_answers = map fst QUESTIONS"
    by (simp add: example_answers_def QUESTIONS_def)
  note w = written_in_submission_order [OF example_answers_valid,
      where t = example_timestamp and f = Absent]
  from w [THEN conjunct2] k
  have "snd (submit_answers Writable example_timestamp Absent example_answers) =
      Content (encode_spec example_answers example_timestamp)"
    by (rule mp)
  with example_answers_valid k w [THEN conjunct1] show ?thesis
    by (intro conjI)
qed

text \<open>
  C2 as stated fails: for the valid submission that lists \<open>Q2\<close> before \<open>Q1\<close>, the
  written text is not the specification's encoding in catalog order.
\<close>

theorem catalog_order_counterexample:
  "valid_submission reordered_answers \<and>
   snd (submit_answers Writable example_timestamp Absent reordered_answers) \<noteq>
     Content (encode_spec reordered_answers example_timestamp)"
  using reordered_blocks_differ
  by (simp add: reordered_answers_valid submit_answers_valid encode_spec_def write_header_def
      Let_def str_newline str_newline2)

end
